theory Spec2Isabelle
  imports Complex_Main "HOL-Library.AList"
begin

section \<open>AutoShorts: silence removal from long videos (ai_video_editor.py)\<close>

text \<open>
  Times are Python floats in the source. They are modelled as \<^typ>\<open>real\<close>: exact
  arithmetic, no rounding. Every comparison and every \<open>min\<close> of the source is kept
  as it is written.
\<close>

subsection \<open>Data model\<close>

text \<open>
  The transcription result is a Python dict. The code reads only its key
  \<open>'segments'\<close>, a list of dicts of which it reads \<open>'start'\<close> and \<open>'end'\<close>. Each
  segment also carries the word-level timestamps that \<open>word_timestamps=True\<close> asks
  for (key \<open>'words'\<close>), which the code never reads.
\<close>

record word =
  word_start :: real
  word_end :: real

record segment =
  seg_start :: real
  seg_end :: real
  seg_words :: "word list"

type_synonym transcription = "string \<rightharpoonup> segment list"

type_synonym interval = "real \<times> real"

datatype exn =
  MediaError | TranscriptionError | KeyError | ZeroDivisionError
  | UnboundLocalError | OSError

subsection \<open>identify_silence_periods (lines 54-85)\<close>

text \<open>
  One iteration of \<open>for word in words\<close> (lines 70-77). The loop state is the list
  \<open>silence_periods\<close> and \<open>previous_end\<close>.
\<close>

definition silence_step ::
  "real \<Rightarrow> real \<Rightarrow> real \<Rightarrow> segment \<Rightarrow> interval list \<times> real \<Rightarrow> interval list \<times> real" where
  "silence_step video_duration threshold buffer w st =
     (case st of (silence_periods, previous_end) \<Rightarrow>
        (let start_time = seg_start w in
         (if start_time - previous_end > threshold
          then (let end_time = min (start_time - buffer) video_duration in
                if end_time > previous_end + buffer
                then silence_periods @ [(previous_end + buffer, end_time)]
                else silence_periods)
          else silence_periods,
          seg_end w)))"

fun silence_loop ::
  "real \<Rightarrow> real \<Rightarrow> real \<Rightarrow> segment list \<Rightarrow> interval list \<times> real \<Rightarrow> interval list \<times> real" where
  "silence_loop video_duration threshold buffer [] st = st"
| "silence_loop video_duration threshold buffer (w # ws) st =
     silence_loop video_duration threshold buffer ws
       (silence_step video_duration threshold buffer w st)"

text \<open>The final silence period (lines 79-83).\<close>

definition final_silence :: "real \<Rightarrow> real \<Rightarrow> real \<Rightarrow> interval list \<times> real \<Rightarrow> interval list" where
  "final_silence video_duration threshold buffer st =
     (case st of (silence_periods, previous_end) \<Rightarrow>
        (if video_duration - previous_end > threshold
         then (let end_time = min (video_duration - buffer) video_duration in
               if end_time > previous_end + buffer
               then silence_periods @ [(previous_end + buffer, end_time)]
               else silence_periods)
         else silence_periods))"

text \<open>
  \<open>transcription['segments']\<close> raises KeyError when the key is missing. The result
  is \<open>Inl\<close> the exception or \<open>Inr\<close> the returned list.
\<close>

definition identify_silence_periods ::
  "transcription \<Rightarrow> real \<Rightarrow> real \<Rightarrow> real \<Rightarrow> exn + interval list" where
  "identify_silence_periods transcription video_duration threshold buffer =
     (case transcription ''segments'' of
        None \<Rightarrow> Inl KeyError
      | Some words \<Rightarrow>
          Inr (final_silence video_duration threshold buffer
                 (silence_loop video_duration threshold buffer words ([], 0))))"

text \<open>A segment without word-level detail, and a transcription holding segments.\<close>

definition seg :: "real \<Rightarrow> real \<Rightarrow> segment" where
  "seg s e = \<lparr>seg_start = s, seg_end = e, seg_words = []\<rparr>"

definition transcript_of :: "segment list \<Rightarrow> transcription" where
  "transcript_of segs = [''segments'' \<mapsto> segs]"

text \<open>
  Loop invariant of \<open>identify_silence_periods\<close>, used in the proofs below: every
  interval collected so far lies in \<open>[buffer, video_duration]\<close>, is non-empty and ends
  no later than \<open>previous_end + buffer\<close>, where the next interval would start.
\<close>

definition silence_inv :: "real \<Rightarrow> real \<Rightarrow> interval list \<Rightarrow> real \<Rightarrow> bool" where
  "silence_inv D b sp pe \<longleftrightarrow>
     (\<forall>iv\<in>set sp. b \<le> fst iv \<and> fst iv < snd iv \<and> snd iv \<le> D \<and> snd iv \<le> pe + b)
     \<and> sorted_wrt (\<lambda>a c. snd a \<le> fst c) sp \<and> 0 \<le> pe"

text \<open>The part of the invariant that holds for any buffer.\<close>

definition silence_bounds :: "real \<Rightarrow> real \<Rightarrow> interval list \<Rightarrow> real \<Rightarrow> bool" where
  "silence_bounds D b sp pe \<longleftrightarrow>
     (\<forall>iv\<in>set sp. b \<le> fst iv \<and> fst iv < snd iv \<and> snd iv \<le> D) \<and> 0 \<le> pe"

subsection \<open>The detector as the specification words it: gaps between words\<close>

text \<open>
  The specification describes the detector over the flattened word list of the
  transcription. This second definition follows those words: the same scan, run over
  every word of every segment in order.
\<close>

definition word_as_segment :: "word \<Rightarrow> segment" where
  "word_as_segment w = \<lparr>seg_start = word_start w, seg_end = word_end w, seg_words = []\<rparr>"

definition flattened_words :: "segment list \<Rightarrow> segment list" where
  "flattened_words segs = map word_as_segment (concat (map seg_words segs))"

definition spec_word_silence_periods ::
  "transcription \<Rightarrow> real \<Rightarrow> real \<Rightarrow> real \<Rightarrow> exn + interval list" where
  "spec_word_silence_periods transcription video_duration threshold buffer =
     (case transcription ''segments'' of
        None \<Rightarrow> Inl KeyError
      | Some segs \<Rightarrow>
          Inr (final_silence video_duration threshold buffer
                 (silence_loop video_duration threshold buffer (flattened_words segs) ([], 0))))"

subsection \<open>cut_silences: the clips that are kept (lines 104-128)\<close>

text \<open>
  \<open>video\<close> is the clip being cut and \<open>duration\<close> its \<open>video.duration\<close>. A kept clip
  \<open>video.subclip(a, b)\<close> is the pair \<open>(a, b)\<close>, in the time of \<open>video\<close>. The loop state
  is \<open>clips\<close> and \<open>last_end\<close>; \<open>break\<close> returns the state as it is.
\<close>

fun cut_loop :: "real \<Rightarrow> interval list \<Rightarrow> interval list \<times> real \<Rightarrow> interval list \<times> real" where
  "cut_loop duration [] st = st"
| "cut_loop duration ((start, stop) # rest) (clips, last_end) =
     (if start > duration then (clips, last_end)
      else cut_loop duration rest
             (if last_end < start then clips @ [(last_end, min start duration)] else clips,
              min stop duration))"

definition keep_clips :: "real \<Rightarrow> interval list \<Rightarrow> interval list" where
  "keep_clips duration silence_periods =
     (case cut_loop duration silence_periods ([], 0) of (clips, last_end) \<Rightarrow>
        if last_end < duration then clips @ [(last_end, duration)] else clips)"

text \<open>
  The duration of \<open>video.subclip(a, b)\<close> is decided by the media library, which is
  not part of the source. For \<open>0 \<le> a \<le> b \<le> video.duration\<close> it is \<open>b - a\<close>,
  written \<open>clip_length\<close>; for other arguments (a negative \<open>a\<close> is counted from the
  end of the clip) nothing is fixed here: the library's answer is the parameter
  \<open>len\<close> below.
\<close>

definition clip_length :: "interval \<Rightarrow> real" where
  "clip_length c = snd c - fst c"

text \<open>
  What is written to \<open>output_video\<close> (lines 121-128): the concatenation of the kept
  clips, each as long as the library makes it, or the clip \<open>video\<close> itself when no
  clip is left.
\<close>

definition cut_result_duration :: "(interval \<Rightarrow> real) \<Rightarrow> real \<Rightarrow> interval list \<Rightarrow> real" where
  "cut_result_duration len duration silence_periods =
     (let clips = keep_clips duration silence_periods in
      if clips \<noteq> [] then sum_list (map len clips) else duration)"

text \<open>Line 42: the silence periods shifted by the chunk's start time.\<close>

definition adjust_silence_periods :: "real \<Rightarrow> interval list \<Rightarrow> interval list" where
  "adjust_silence_periods start_time silence_periods =
     map (\<lambda>(start, stop). (start + start_time, stop + start_time)) silence_periods"

subsection \<open>The chunk partition of process_long_video (lines 150-165)\<close>

text \<open>
  \<open>chunk_duration\<close> is an \<open>int\<close>, as the docstring types it (line 143) and as the
  only caller passes it (the default 300). \<open>total_duration\<close> is a float, modelled as
  a real; \<open>i * chunk_duration\<close> is then integer arithmetic. A chunk size that is
  itself a float, where the rounding of \<open>total_duration / chunk_duration\<close> and of
  \<open>i * chunk_duration\<close> decides how many chunks there are, is not modelled.

  Python's \<open>int(x)\<close> truncates towards zero; \<open>a % b\<close> on floats has the sign of \<open>b\<close>.
\<close>

definition py_int :: "real \<Rightarrow> int" where
  "py_int x = (if 0 \<le> x then \<lfloor>x\<rfloor> else \<lceil>x\<rceil>)"

definition py_mod :: "real \<Rightarrow> real \<Rightarrow> real" where
  "py_mod a b = a - b * of_int \<lfloor>a / b\<rfloor>"

definition num_chunks :: "real \<Rightarrow> int \<Rightarrow> int" where
  "num_chunks total_duration chunk_duration =
     py_int (total_duration / of_int chunk_duration)
       + (if py_mod total_duration (of_int chunk_duration) > 0 then 1 else 0)"

definition chunk_range :: "real \<Rightarrow> int \<Rightarrow> nat \<Rightarrow> interval" where
  "chunk_range total_duration chunk_duration i =
     (of_int (int i * chunk_duration),
      min (of_int ((int i + 1) * chunk_duration)) total_duration)"

text \<open>All chunks the loop visits, \<open>range(num_chunks)\<close>, before the test of line 164.\<close>

definition all_chunks :: "real \<Rightarrow> int \<Rightarrow> (nat \<times> interval) list" where
  "all_chunks total_duration chunk_duration =
     map (\<lambda>i. (i, chunk_range total_duration chunk_duration i))
       [0..<nat (num_chunks total_duration chunk_duration)]"

text \<open>
  The chunks that pass the test of line 164, which skips a chunk with
  \<open>end_time - start_time < 1\<close>. The loop itself (\<open>chunk_loop\<close> below) runs over all
  chunks and makes the test in its body.
\<close>

definition too_short :: "nat \<times> interval \<Rightarrow> bool" where
  "too_short c = (case c of (i, start_time, end_time) \<Rightarrow> end_time - start_time < 1)"

definition chunk_plan :: "real \<Rightarrow> int \<Rightarrow> (nat \<times> interval) list" where
  "chunk_plan total_duration chunk_duration =
     filter (\<lambda>c. \<not> too_short c) (all_chunks total_duration chunk_duration)"


subsection \<open>Files and the outcomes of external calls\<close>

text \<open>
  The paths the code builds are kept apart by constructor: a path given by the caller,
  \<open>f"temp_chunk_{start_time}_{end_time}.mp4"\<close> (line 25) and
  \<open>temp_chunks/chunk_{i}.mp4\<close> (line 167). A file holds a playable video of some
  duration, or what a failed write left behind, which cannot be opened.
\<close>

datatype path = Path string | TempChunkPath real real | ChunkPath nat

datatype media = Video real | Partial

record filesystem =
  files :: "(path \<times> media) list"
  dirs :: "string set"

definition path_exists :: "filesystem \<Rightarrow> path \<Rightarrow> bool" where
  "path_exists fs p = (map_of (files fs) p \<noteq> None)"

definition write_file :: "filesystem \<Rightarrow> path \<Rightarrow> media \<Rightarrow> filesystem" where
  "write_file fs p m = fs\<lparr>files := AList.update p m (files fs)\<rparr>"

text \<open>\<open>os.remove\<close> raises when the file is not there.\<close>

definition os_remove :: "filesystem \<Rightarrow> path \<Rightarrow> exn + filesystem" where
  "os_remove fs p =
     (if path_exists fs p then Inr (fs\<lparr>files := AList.delete p (files fs)\<rparr>) else Inl OSError)"

text \<open>The pattern \<open>if os.path.exists(p): os.remove(p)\<close> (lines 50-51, 185-186, 199-200).\<close>

definition remove_if_exists :: "filesystem \<Rightarrow> path \<Rightarrow> filesystem" where
  "remove_if_exists fs p =
     (if path_exists fs p then fs\<lparr>files := AList.delete p (files fs)\<rparr> else fs)"

definition temp_dir :: string where
  "temp_dir = ''temp_chunks''"

fun in_temp_dir :: "path \<Rightarrow> bool" where
  "in_temp_dir (ChunkPath i) = True"
| "in_temp_dir (Path p) = False"
| "in_temp_dir (TempChunkPath s e) = False"

definition makedirs :: "filesystem \<Rightarrow> filesystem" where
  "makedirs fs = fs\<lparr>dirs := insert temp_dir (dirs fs)\<rparr>"

text \<open>\<open>os.rmdir\<close> raises when the directory is missing or not empty.\<close>

definition rmdir :: "filesystem \<Rightarrow> exn + filesystem" where
  "rmdir fs =
     (if temp_dir \<in> dirs fs \<and> filter (\<lambda>f. in_temp_dir (fst f)) (files fs) = []
      then Inr (fs\<lparr>dirs := dirs fs - {temp_dir}\<rparr>)
      else Inl OSError)"

text \<open>
  The video library and the speech recogniser are outside the program. What each of
  their calls does is given from outside: a write either succeeds or raises, leaving a
  partial file or none.
\<close>

datatype write_outcome = Written | WriteFailed bool

record cutter_script =
  cut_load :: "exn + real"
  subclip_length :: "real \<Rightarrow> interval \<Rightarrow> real"
  cut_clips_fail :: bool
  cut_encode :: write_outcome

record chunk_script =
  extract_fails :: bool
  write_temp :: write_outcome
  transcribe :: "exn + transcription"
  cutter :: cutter_script

record pipeline_script =
  probe :: "exn + real"
  chunk_scripts :: "nat \<Rightarrow> chunk_script"
  final_encode :: write_outcome

subsection \<open>cut_silences (lines 87-134)\<close>

text \<open>
  The body of the \<open>try\<close>. \<open>cut_load\<close> is \<open>VideoFileClip(input_video)\<close> with the
  optional \<open>subclip(start_time, end_time)\<close> (lines 100-102): it raises, or gives the
  duration of the whole source. \<open>cut_clips_fail\<close> says whether a \<open>subclip\<close> or the
  concatenation raises (lines 113, 118, 122), \<open>cut_encode\<close> what \<open>write_videofile\<close>
  does (lines 124, 128). \<open>subclip_length sc d (a, b)\<close> is the duration the library
  gives \<open>video.subclip(a, b)\<close> when \<open>video.duration\<close> is \<open>d\<close>. \<open>clip_duration\<close> is
  \<open>video.duration\<close> after lines 100-102: the source's duration, or
  \<open>end_time - start_time\<close> for the sub-clip.
\<close>

definition clip_duration :: "real \<Rightarrow> real option \<Rightarrow> real option \<Rightarrow> real" where
  "clip_duration source_duration start_time end_time =
     (case start_time of
        None \<Rightarrow> source_duration
      | Some s \<Rightarrow> (case end_time of None \<Rightarrow> source_duration | Some e \<Rightarrow> e - s))"

definition cut_silences_try ::
  "cutter_script \<Rightarrow> filesystem \<Rightarrow> path \<Rightarrow> interval list \<Rightarrow> real option \<Rightarrow> real option
     \<Rightarrow> filesystem \<times> (exn + unit)" where
  "cut_silences_try sc fs output_video silence_periods start_time end_time =
     (case cut_load sc of
        Inl e \<Rightarrow> (fs, Inl e)
      | Inr source_duration \<Rightarrow>
          (let duration = clip_duration source_duration start_time end_time
           in if cut_clips_fail sc then (fs, Inl MediaError)
              else (case cut_encode sc of
                      Written \<Rightarrow>
                        (write_file fs output_video
                           (Video (cut_result_duration (subclip_length sc duration) duration
                                     silence_periods)), Inr ())
                    | WriteFailed leftover \<Rightarrow>
                        (if leftover then write_file fs output_video Partial else fs,
                         Inl MediaError))))"

text \<open>\<open>except Exception\<close> (lines 131-134): print, close, return None.\<close>

definition cut_silences ::
  "cutter_script \<Rightarrow> filesystem \<Rightarrow> path \<Rightarrow> interval list \<Rightarrow> real option \<Rightarrow> real option
     \<Rightarrow> filesystem \<times> (exn + unit)" where
  "cut_silences sc fs output_video silence_periods start_time end_time =
     (case cut_silences_try sc fs output_video silence_periods start_time end_time of
        (fs', Inl e) \<Rightarrow> (fs', Inr ())
      | (fs', Inr u) \<Rightarrow> (fs', Inr ()))"

subsection \<open>process_video_chunk (lines 6-52)\<close>

text \<open>
  The handler of lines 48-52, for an exception raised after line 25 has assigned
  \<open>temp_chunk_path\<close>.
\<close>

definition chunk_handler :: "filesystem \<Rightarrow> path \<Rightarrow> filesystem \<times> (exn + bool)" where
  "chunk_handler fs temp_chunk_path = (remove_if_exists fs temp_chunk_path, Inr False)"

text \<open>
  When line 21 raises, \<open>temp_chunk_path\<close> is not yet bound: the handler's own line 50
  raises UnboundLocalError, which leaves the function. The threshold passed at line 39
  is 0.5 and the buffer is the default 0.1.
\<close>

definition process_video_chunk ::
  "chunk_script \<Rightarrow> filesystem \<Rightarrow> real \<Rightarrow> real \<Rightarrow> path \<Rightarrow> filesystem \<times> (exn + bool)" where
  "process_video_chunk sc fs start_time end_time output_chunk_path =
     (if extract_fails sc then (fs, Inl UnboundLocalError)
      else
        (let chunk_duration = end_time - start_time;
             temp_chunk_path = TempChunkPath start_time end_time
         in case write_temp sc of
              WriteFailed leftover \<Rightarrow>
                chunk_handler (if leftover then write_file fs temp_chunk_path Partial else fs)
                  temp_chunk_path
            | Written \<Rightarrow>
                (let fs1 = write_file fs temp_chunk_path (Video chunk_duration)
                 in case transcribe sc of
                      Inl e \<Rightarrow> chunk_handler fs1 temp_chunk_path
                    | Inr result \<Rightarrow>
                        (case os_remove fs1 temp_chunk_path of
                           Inl e \<Rightarrow> chunk_handler fs1 temp_chunk_path
                         | Inr fs2 \<Rightarrow>
                             (case identify_silence_periods result chunk_duration (1/2) (1/10) of
                                Inl e \<Rightarrow> chunk_handler fs2 temp_chunk_path
                              | Inr silence_periods \<Rightarrow>
                                  (case cut_silences (cutter sc) fs2 output_chunk_path
                                          (adjust_silence_periods start_time silence_periods)
                                          (Some start_time) (Some end_time) of
                                     (fs3, Inl e) \<Rightarrow> chunk_handler fs3 temp_chunk_path
                                   | (fs3, Inr u) \<Rightarrow> (fs3, Inr True)))))))"

subsection \<open>process_long_video (lines 136-206)\<close>

text \<open>
  The chunk loop (lines 159-169), over the chunks \<open>(i, start_time, end_time)\<close> of
  \<open>range(num_chunks)\<close>. Line 164 skips a short chunk. An exception that leaves
  \<open>process_video_chunk\<close> leaves the loop and the function: there is no \<open>try\<close>
  around the call.
\<close>

fun chunk_loop ::
  "(nat \<Rightarrow> chunk_script) \<Rightarrow> (nat \<times> interval) list \<Rightarrow> filesystem \<times> path list
     \<Rightarrow> filesystem \<times> (exn + path list)" where
  "chunk_loop scs [] (fs, processed_chunks) = (fs, Inr processed_chunks)"
| "chunk_loop scs ((i, start_time, end_time) # rest) (fs, processed_chunks) =
     (if end_time - start_time < 1 then chunk_loop scs rest (fs, processed_chunks)
      else
        (case process_video_chunk (scs i) fs start_time end_time (ChunkPath i) of
           (fs', Inl e) \<Rightarrow> (fs', Inl e)
         | (fs', Inr ok) \<Rightarrow>
             chunk_loop scs rest
               (fs', if ok then processed_chunks @ [ChunkPath i] else processed_chunks)))"

text \<open>
  Re-opening the chunk files (lines 175-186). \<open>VideoFileClip(chunk_path)\<close> raises on a
  missing or partial file. A kept clip is its path with its duration.
\<close>

fun load_clips ::
  "path list \<Rightarrow> filesystem \<times> (path \<times> real) list \<Rightarrow> filesystem \<times> (path \<times> real) list" where
  "load_clips [] st = st"
| "load_clips (chunk_path # rest) (fs, final_clips) =
     load_clips rest
       (case map_of (files fs) chunk_path of
          Some (Video d) \<Rightarrow>
            (if d > 0 then (fs, final_clips @ [(chunk_path, d)])
             else (remove_if_exists fs chunk_path, final_clips))
        | Some Partial \<Rightarrow> (remove_if_exists fs chunk_path, final_clips)
        | None \<Rightarrow> (remove_if_exists fs chunk_path, final_clips))"

datatype report = Completed | NoValidClips | NoChunksProcessed

definition process_long_video ::
  "pipeline_script \<Rightarrow> filesystem \<Rightarrow> path \<Rightarrow> int \<Rightarrow> filesystem \<times> (exn + report)" where
  "process_long_video ps fs output_video chunk_duration =
     (case probe ps of
        Inl e \<Rightarrow> (fs, Inl e)
      | Inr total_duration \<Rightarrow>
          (if chunk_duration = 0 then (fs, Inl ZeroDivisionError)
           else
             (case chunk_loop (chunk_scripts ps) (all_chunks total_duration chunk_duration)
                     (makedirs fs, []) of
                (fs1, Inl e) \<Rightarrow> (fs1, Inl e)
              | (fs1, Inr processed_chunks) \<Rightarrow>
                  (if processed_chunks \<noteq> [] then
                     (case load_clips processed_chunks (fs1, []) of
                        (fs2, final_clips) \<Rightarrow>
                          (if final_clips \<noteq> [] then
                             (case final_encode ps of
                                WriteFailed leftover \<Rightarrow>
                                  (if leftover then write_file fs2 output_video Partial else fs2,
                                   Inl MediaError)
                              | Written \<Rightarrow>
                                  (let fs3 = write_file fs2 output_video
                                               (Video (sum_list (map snd final_clips)));
                                       fs4 = fold (\<lambda>chunk f. remove_if_exists f chunk)
                                               processed_chunks fs3
                                   in case rmdir fs4 of
                                        Inl e \<Rightarrow> (fs4, Inl e)
                                      | Inr fs5 \<Rightarrow> (fs5, Inr Completed)))
                           else (fs2, Inr NoValidClips)))
                   else (fs1, Inr NoChunksProcessed)))))"

text \<open>
  An empty working directory, and scripts in which no external call fails and a
  sub-clip \<open>(a, b)\<close> has the duration \<open>b - a\<close>. They are used below where every
  sub-clip lies within its video.
\<close>

definition empty_fs :: filesystem where
  "empty_fs = \<lparr>files = [], dirs = {}\<rparr>"

definition good_cutter :: "real \<Rightarrow> cutter_script" where
  "good_cutter source_duration =
     \<lparr>cut_load = Inr source_duration, subclip_length = (\<lambda>d. clip_length),
      cut_clips_fail = False, cut_encode = Written\<rparr>"

definition good_chunk :: "real \<Rightarrow> segment list \<Rightarrow> chunk_script" where
  "good_chunk source_duration segs =
     \<lparr>extract_fails = False, write_temp = Written, transcribe = Inr (transcript_of segs),
      cutter = good_cutter source_duration\<rparr>"

section \<open>Proofs\<close>

subsection \<open>Unfolding sets\<close>

lemmas detector_defs =
  identify_silence_periods_def spec_word_silence_periods_def flattened_words_def
  word_as_segment_def transcript_of_def seg_def silence_step_def final_silence_def

lemmas cutter_defs =
  keep_clips_def adjust_silence_periods_def cut_result_duration_def clip_length_def
  clip_duration_def

lemmas partition_defs =
  chunk_plan_def all_chunks_def num_chunks_def py_int_def py_mod_def chunk_range_def
  too_short_def

lemmas file_defs =
  path_exists_def write_file_def os_remove_def remove_if_exists_def temp_dir_def
  makedirs_def rmdir_def empty_fs_def

lemmas pipeline_defs =
  cut_silences_try_def cut_silences_def chunk_handler_def process_video_chunk_def
  process_long_video_def good_cutter_def good_chunk_def

subsection \<open>The detector's loop invariant\<close>

lemma silence_step_inv:
  assumes inv: "silence_inv D b sp pe" and b: "0 \<le> b"
    and w0: "0 \<le> seg_start w" and w1: "seg_start w \<le> seg_end w"
    and lo: "\<forall>iv\<in>set sp. snd iv + b \<le> seg_start w"
    and st: "silence_step D th b w (sp, pe) = (sp', pe')"
  shows "silence_inv D b sp' pe' \<and> (\<forall>iv\<in>set sp'. snd iv + b \<le> seg_start w)"
proof -
  have pe': "pe' = seg_end w"
    using st by (simp add: silence_step_def Let_def)
  have old: "\<forall>iv\<in>set sp. b \<le> fst iv \<and> fst iv < snd iv \<and> snd iv \<le> D \<and> snd iv \<le> pe + b"
    and chain: "sorted_wrt (\<lambda>a c. snd a \<le> fst c) sp" and pe: "0 \<le> pe"
    using inv by (auto simp: silence_inv_def)
  have old': "\<forall>iv\<in>set sp. snd iv \<le> pe' + b"
  proof
    fix iv assume "iv \<in> set sp"
    then have "snd iv + b \<le> seg_start w" using lo by blast
    then show "snd iv \<le> pe' + b" using b w1 pe' by linarith
  qed
  show ?thesis
  proof (cases "sp' = sp")
    case True
    then show ?thesis
      using old old' chain lo w0 w1 pe' by (auto simp: silence_inv_def)
  next
    case False
    let ?e = "min (seg_start w - b) D"
    from False st have sp': "sp' = sp @ [(pe + b, ?e)]" and gt: "?e > pe + b"
      by (auto simp: silence_step_def Let_def split: if_splits)
    have new: "b \<le> pe + b" "pe + b < ?e" "?e \<le> D" "?e \<le> pe' + b" "?e + b \<le> seg_start w"
      using gt b pe w1 pe' by auto
    have "sorted_wrt (\<lambda>a c. snd a \<le> fst c) sp'"
      using chain old by (auto simp: sp' sorted_wrt_append)
    moreover have "\<forall>iv\<in>set sp'. b \<le> fst iv \<and> fst iv < snd iv \<and> snd iv \<le> D \<and> snd iv \<le> pe' + b"
      using old old' new by (auto simp: sp')
    moreover have "\<forall>iv\<in>set sp'. snd iv + b \<le> seg_start w"
      using lo new by (auto simp: sp')
    moreover have "0 \<le> pe'" using pe' w0 w1 by linarith
    ultimately show ?thesis by (simp add: silence_inv_def)
  qed
qed

lemma silence_loop_inv:
  assumes "0 \<le> b"
    and "sorted (map seg_start ws)"
    and "\<forall>w\<in>set ws. 0 \<le> seg_start w \<and> seg_start w \<le> seg_end w"
    and "silence_inv D b sp pe"
    and "\<forall>iv\<in>set sp. \<forall>w\<in>set ws. snd iv + b \<le> seg_start w"
    and "silence_loop D th b ws (sp, pe) = (sp', pe')"
  shows "silence_inv D b sp' pe'"
  using assms
proof (induction ws arbitrary: sp pe)
  case Nil
  then show ?case by simp
next
  case (Cons w ws)
  obtain sp1 pe1 where st: "silence_step D th b w (sp, pe) = (sp1, pe1)"
    by (cases "silence_step D th b w (sp, pe)")
  have w: "0 \<le> seg_start w" "seg_start w \<le> seg_end w" "\<forall>iv\<in>set sp. snd iv + b \<le> seg_start w"
    using Cons.prems by auto
  from silence_step_inv[OF Cons.prems(4) Cons.prems(1) w st]
  have inv1: "silence_inv D b sp1 pe1" and lo: "\<forall>iv\<in>set sp1. snd iv + b \<le> seg_start w"
    by auto
  have "\<forall>iv\<in>set sp1. \<forall>w'\<in>set ws. snd iv + b \<le> seg_start w'"
    using lo Cons.prems(2) by fastforce
  moreover have "sorted (map seg_start ws)" "\<forall>w\<in>set ws. 0 \<le> seg_start w \<and> seg_start w \<le> seg_end w"
    using Cons.prems by auto
  moreover have "silence_loop D th b ws (sp1, pe1) = (sp', pe')"
    using Cons.prems(6) st by simp
  ultimately show ?case
    using Cons.IH[OF Cons.prems(1) _ _ inv1] by blast
qed

lemma final_silence_inv:
  assumes inv: "silence_inv D b sp pe" and b: "0 \<le> b"
  shows "silence_inv D b (final_silence D th b (sp, pe)) (max pe D)"
proof -
  have old: "\<forall>iv\<in>set sp. b \<le> fst iv \<and> fst iv < snd iv \<and> snd iv \<le> D \<and> snd iv \<le> pe + b"
    and chain: "sorted_wrt (\<lambda>a c. snd a \<le> fst c) sp" and pe: "0 \<le> pe"
    using inv by (auto simp: silence_inv_def)
  have old': "\<forall>iv\<in>set sp. snd iv \<le> max pe D + b"
    using old by fastforce
  show ?thesis
  proof (cases "final_silence D th b (sp, pe) = sp")
    case True
    then show ?thesis using old old' chain pe by (auto simp: silence_inv_def)
  next
    case False
    let ?e = "min (D - b) D"
    from False have fs: "final_silence D th b (sp, pe) = sp @ [(pe + b, ?e)]" and gt: "?e > pe + b"
      by (auto simp: final_silence_def Let_def split: if_splits)
    have new: "b \<le> pe + b" "pe + b < ?e" "?e \<le> D" "?e \<le> max pe D + b"
      using gt b pe by auto
    have "sorted_wrt (\<lambda>a c. snd a \<le> fst c) (sp @ [(pe + b, ?e)])"
      using chain old by (auto simp: sorted_wrt_append)
    moreover have "\<forall>iv\<in>set (sp @ [(pe + b, ?e)]).
        b \<le> fst iv \<and> fst iv < snd iv \<and> snd iv \<le> D \<and> snd iv \<le> max pe D + b"
      using old old' new by auto
    ultimately show ?thesis using pe by (simp add: silence_inv_def fs)
  qed
qed

lemma silence_step_bounds:
  assumes "silence_bounds D b sp pe" and "0 \<le> seg_end w"
  shows "silence_bounds D b (fst (silence_step D th b w (sp, pe))) (snd (silence_step D th b w (sp, pe)))"
  using assms by (auto simp: silence_bounds_def silence_step_def Let_def)

lemma silence_loop_bounds:
  assumes "\<forall>w\<in>set ws. 0 \<le> seg_end w" and "silence_bounds D b sp pe"
  shows "silence_bounds D b (fst (silence_loop D th b ws (sp, pe))) (snd (silence_loop D th b ws (sp, pe)))"
  using assms
proof (induction ws arbitrary: sp pe)
  case Nil
  then show ?case by simp
next
  case (Cons w ws)
  obtain sp1 pe1 where st: "silence_step D th b w (sp, pe) = (sp1, pe1)"
    by (cases "silence_step D th b w (sp, pe)")
  have "silence_bounds D b sp1 pe1"
    using silence_step_bounds[of D b sp pe w th] Cons.prems st by simp
  then show ?case
    using Cons.IH[of sp1 pe1] Cons.prems(1) st by simp
qed

lemma final_silence_bounds:
  assumes "silence_bounds D b sp pe"
  shows "\<forall>iv\<in>set (final_silence D th b (sp, pe)). b \<le> fst iv \<and> fst iv < snd iv \<and> snd iv \<le> D"
  using assms by (auto simp: silence_bounds_def final_silence_def Let_def)

subsection \<open>The chunk partition\<close>

















subsection \<open>The kept clips\<close>

lemma cut_loop_positive:
  assumes "\<forall>c\<in>set clips. fst c < snd c"
    and "cut_loop duration silence_periods (clips, last_end) = (clips', last_end')"
  shows "\<forall>c\<in>set clips'. fst c < snd c"
  using assms
proof (induction silence_periods arbitrary: clips last_end)
  case Nil
  then show ?case by simp
next
  case (Cons p rest)
  obtain start stop where p: "p = (start, stop)" by (cases p)
  show ?case
  proof (cases "start > duration")
    case True
    then show ?thesis using Cons.prems by (simp add: p)
  next
    case False
    let ?clips = "if last_end < start then clips @ [(last_end, min start duration)] else clips"
    have "\<forall>c\<in>set ?clips. fst c < snd c"
      using Cons.prems(1) False by auto
    moreover have "cut_loop duration rest (?clips, min stop duration) = (clips', last_end')"
      using Cons.prems(2) False by (simp add: p)
    ultimately show ?thesis by (rule Cons.IH)
  qed
qed

lemma keep_clips_positive: "\<forall>c\<in>set (keep_clips duration silence_periods). fst c < snd c"
proof -
  obtain clips last_end where l: "cut_loop duration silence_periods ([], 0) = (clips, last_end)"
    by (cases "cut_loop duration silence_periods ([], 0)")
  have "\<forall>c\<in>set clips. fst c < snd c"
    using cut_loop_positive[OF _ l] by simp
  then show ?thesis
    by (auto simp: keep_clips_def l)
qed

lemma sum_list_clip_length_pos:
  assumes "\<forall>c\<in>set clips. fst c < snd c" and "clips \<noteq> []"
  shows "0 < sum_list (map clip_length clips)"
  using assms
proof (induction clips)
  case Nil
  then show ?case by simp
next
  case (Cons c clips)
  have c: "0 < clip_length c" using Cons.prems(1) by (simp add: clip_length_def)
  show ?case
  proof (cases "clips = []")
    case True
    then show ?thesis using c by simp
  next
    case False
    then have "0 < sum_list (map clip_length clips)" using Cons by simp
    then show ?thesis using c by simp
  qed
qed

text \<open>
  For silences that end at non-negative times every kept clip \<open>(a, b)\<close> has
  \<open>0 \<le> a < b \<le> duration\<close>: the range in which \<open>subclip(a, b)\<close> has duration
  \<open>b - a\<close>.
\<close>

lemma keep_loop_in_range:
  assumes "0 \<le> duration" and "\<forall>p\<in>set silence_periods. 0 \<le> snd p"
    and "\<forall>c\<in>set clips. 0 \<le> fst c \<and> fst c < snd c \<and> snd c \<le> duration" and "0 \<le> last_end"
    and "cut_loop duration silence_periods (clips, last_end) = (clips', last_end')"
  shows "(\<forall>c\<in>set clips'. 0 \<le> fst c \<and> fst c < snd c \<and> snd c \<le> duration) \<and> 0 \<le> last_end'"
  using assms
proof (induction silence_periods arbitrary: clips last_end)
  case Nil
  then show ?case by simp
next
  case (Cons p rest)
  obtain start stop where p: "p = (start, stop)" by (cases p)
  show ?case
  proof (cases "start > duration")
    case True
    then show ?thesis using Cons.prems by (simp add: p)
  next
    case False
    let ?clips = "if last_end < start then clips @ [(last_end, min start duration)] else clips"
    have "\<forall>c\<in>set ?clips. 0 \<le> fst c \<and> fst c < snd c \<and> snd c \<le> duration"
      using Cons.prems(3,4) False by auto
    moreover have "0 \<le> min stop duration" using Cons.prems(1,2) by (simp add: p)
    moreover have "cut_loop duration rest (?clips, min stop duration) = (clips', last_end')"
      using Cons.prems(5) False by (simp add: p)
    moreover have "\<forall>p\<in>set rest. 0 \<le> snd p" using Cons.prems(2) by simp
    ultimately show ?thesis using Cons.IH[OF Cons.prems(1)] by blast
  qed
qed

lemma keep_clips_in_range:
  assumes "0 \<le> duration" and "\<forall>p\<in>set silence_periods. 0 \<le> snd p"
  shows "\<forall>c\<in>set (keep_clips duration silence_periods). 0 \<le> fst c \<and> fst c < snd c \<and> snd c \<le> duration"
proof -
  obtain clips last_end where l: "cut_loop duration silence_periods ([], 0) = (clips, last_end)"
    by (cases "cut_loop duration silence_periods ([], 0)")
  have "(\<forall>c\<in>set clips. 0 \<le> fst c \<and> fst c < snd c \<and> snd c \<le> duration) \<and> 0 \<le> last_end"
    using keep_loop_in_range[OF assms _ _ l] by simp
  then show ?thesis by (auto simp: keep_clips_def l)
qed

text \<open>
  A library that gives every sub-clip within the video the duration \<open>b - a\<close> makes the
  result of the cut as long as the kept clips together, which is more than 0.
\<close>

lemma cut_result_duration_pos:
  assumes d: "0 < duration" and sil: "\<forall>p\<in>set silence_periods. 0 \<le> snd p"
    and len: "\<forall>c. 0 \<le> fst c \<and> fst c < snd c \<and> snd c \<le> duration \<longrightarrow> len c = clip_length c"
  shows "0 < cut_result_duration len duration silence_periods"
proof -
  let ?clips = "keep_clips duration silence_periods"
  have "0 \<le> duration" using d by simp
  then have "\<forall>c\<in>set ?clips. 0 \<le> fst c \<and> fst c < snd c \<and> snd c \<le> duration"
    using sil by (rule keep_clips_in_range)
  then have eq: "map len ?clips = map clip_length ?clips"
    using len by (intro map_cong) auto
  show ?thesis
  proof (cases "?clips = []")
    case True
    then show ?thesis using d by (simp add: cut_result_duration_def)
  next
    case False
    then have "0 < sum_list (map clip_length ?clips)"
      by (rule sum_list_clip_length_pos[OF keep_clips_positive])
    then show ?thesis
      unfolding cut_result_duration_def Let_def eq using False by simp
  qed
qed

text \<open>
  No silence is usable when each starts beyond the clip (or the list is empty): the loop
  breaks at once and the one kept clip is the whole video.
\<close>

lemma keep_clips_unusable:
  assumes "0 < duration" and "\<forall>p\<in>set silence_periods. duration < fst p"
  shows "keep_clips duration silence_periods = [(0, duration)]"
proof (cases silence_periods)
  case Nil
  then show ?thesis using assms(1) by (simp add: keep_clips_def)
next
  case (Cons p rest)
  obtain start stop where p: "p = (start, stop)" by (cases p)
  have "start > duration" using assms(2) Cons p by simp
  then show ?thesis
    using assms(1) by (simp add: keep_clips_def Cons p)
qed

lemma cut_result_unusable:
  assumes d: "0 < duration" and far: "\<forall>p\<in>set silence_periods. duration < fst p"
    and len: "\<forall>c. 0 \<le> fst c \<and> fst c < snd c \<and> snd c \<le> duration \<longrightarrow> len c = clip_length c"
  shows "cut_result_duration len duration silence_periods = duration"
proof -
  have "len (0, duration) = clip_length (0, duration)" using len d by simp
  then show ?thesis
    using keep_clips_unusable[OF d far] by (simp add: cut_result_duration_def clip_length_def)
qed

text \<open>
  Every chunk that starts at or after its own duration (every chunk but the first)
  is in that case once its silences are shifted by \<open>start_time\<close>.
\<close>

lemma later_chunk_uncut:
  assumes "0 < duration" and "duration \<le> start_time"
    and "\<forall>p\<in>set silence_periods. 0 < fst p"
  shows "keep_clips duration (adjust_silence_periods start_time silence_periods) = [(0, duration)]"
proof (rule keep_clips_unusable[OF assms(1)])
  show "\<forall>p\<in>set (adjust_silence_periods start_time silence_periods). duration < fst p"
    using assms(2,3) by (fastforce simp: adjust_silence_periods_def)
qed

subsection \<open>Files, the cutter and the chunk processor\<close>

lemma path_exists_remove_if_exists [simp]: "\<not> path_exists (remove_if_exists fs p) p"
  by (simp add: path_exists_def remove_if_exists_def AList.delete_conv')

lemma path_exists_write_file [simp]:
  "path_exists (write_file fs p m) q \<longleftrightarrow> q = p \<or> path_exists fs q"
  by (simp add: path_exists_def write_file_def AList.update_conv')

lemma os_remove_write_file:
  "os_remove (write_file fs p m) p = Inr (fs\<lparr>files := AList.delete p (files fs)\<rparr>)"
  by (simp add: os_remove_def path_exists_def write_file_def AList.update_conv'
      AList.delete_update_same)

lemma path_exists_delete [simp]:
  "path_exists (fs\<lparr>files := AList.delete p (files fs)\<rparr>) q \<longleftrightarrow> q \<noteq> p \<and> path_exists fs q"
  by (simp add: path_exists_def AList.delete_conv')

lemma cut_silences_contained:
  "snd (cut_silences sc fs output_video silence_periods start_time end_time) = Inr ()"
  by (simp add: cut_silences_def split: prod.splits sum.splits)

lemma cut_silences_other_paths:
  assumes "q \<noteq> output_video"
  shows "path_exists (fst (cut_silences sc fs output_video silence_periods start_time end_time)) q
      \<longleftrightarrow> path_exists fs q"
  using assms
  by (simp add: cut_silences_def cut_silences_try_def Let_def
      split: prod.splits sum.splits write_outcome.splits)

lemma cut_silences_result:
  obtains fs' where
    "cut_silences sc fs output_video silence_periods start_time end_time = (fs', Inr ())"
  using cut_silences_contained[of sc fs output_video silence_periods start_time end_time]
  by (cases "cut_silences sc fs output_video silence_periods start_time end_time") simp

lemma chunk_handler_contained:
  "\<exists>fs'. chunk_handler fs p = (fs', Inr False) \<and> \<not> path_exists fs' p"
  by (simp add: chunk_handler_def)

lemma process_video_chunk_contained:
  assumes ext: "\<not> extract_fails sc"
    and out: "output_chunk_path \<noteq> TempChunkPath start_time end_time"
  shows "\<exists>fs' ok. process_video_chunk sc fs start_time end_time output_chunk_path = (fs', Inr ok)
           \<and> \<not> path_exists fs' (TempChunkPath start_time end_time)"
proof -
  let ?t = "TempChunkPath start_time end_time"
  let ?d = "end_time - start_time"
  show ?thesis
  proof (cases "write_temp sc")
    case (WriteFailed leftover)
    then show ?thesis
      using ext chunk_handler_contained[of _ ?t]
      by (simp add: process_video_chunk_def Let_def) blast
  next
    case Written
    let ?fs1 = "write_file fs ?t (Video ?d)"
    show ?thesis
    proof (cases "transcribe sc")
      case (Inl e)
      then show ?thesis
        using ext Written chunk_handler_contained[of ?fs1 ?t]
        by (simp add: process_video_chunk_def Let_def) blast
    next
      case (Inr result)
      let ?fs2 = "fs\<lparr>files := AList.delete ?t (files fs)\<rparr>"
      have rm: "os_remove ?fs1 ?t = Inr ?fs2" by (rule os_remove_write_file)
      show ?thesis
      proof (cases "identify_silence_periods result ?d (1/2) (1/10)")
        case (Inl e)
        then show ?thesis
          using ext Written Inr rm chunk_handler_contained[of ?fs2 ?t]
          by (simp add: process_video_chunk_def Let_def) blast
      next
        case sil: (Inr silence_periods)
        obtain fs3 where c: "cut_silences (cutter sc) ?fs2 output_chunk_path
            (adjust_silence_periods start_time silence_periods) (Some start_time) (Some end_time)
            = (fs3, Inr ())"
          by (rule cut_silences_result)
        have "path_exists fs3 ?t \<longleftrightarrow> path_exists ?fs2 ?t"
          using cut_silences_other_paths[of ?t output_chunk_path "cutter sc" ?fs2
              "adjust_silence_periods start_time silence_periods" "Some start_time" "Some end_time"]
            out c by simp
        then have "\<not> path_exists fs3 ?t" by simp
        moreover have "process_video_chunk sc fs start_time end_time output_chunk_path
            = (fs3, Inr True)"
          using ext Written Inr rm sil c by (simp add: process_video_chunk_def Let_def)
        ultimately show ?thesis by blast
      qed
    qed
  qed
qed

lemma process_video_chunk_ignores_cutter:
  assumes "\<not> extract_fails sc" and "write_temp sc = Written"
    and "transcribe sc = Inr result" and "result ''segments'' = Some segs"
  shows "snd (process_video_chunk sc fs start_time end_time output_chunk_path) = Inr True"
proof -
  obtain silence_periods where sil:
    "identify_silence_periods result (end_time - start_time) (1/2) (1/10) = Inr silence_periods"
    using assms(4) by (simp add: identify_silence_periods_def)
  obtain fs3 where c: "cut_silences (cutter sc)
      (fs\<lparr>files := AList.delete (TempChunkPath start_time end_time) (files fs)\<rparr>) output_chunk_path
      (adjust_silence_periods start_time silence_periods) (Some start_time) (Some end_time)
      = (fs3, Inr ())"
    by (rule cut_silences_result)
  show ?thesis
    using assms(1-3) sil c
    by (simp add: process_video_chunk_def Let_def os_remove_write_file)
qed

lemma extract_failure_escapes:
  assumes "extract_fails sc"
  shows "process_video_chunk sc fs start_time end_time output_chunk_path = (fs, Inl UnboundLocalError)"
  using assms by (simp add: process_video_chunk_def)

section \<open>The claims\<close>

text \<open>
  C1. For every chunk, the silence intervals found in chunk-relative time are shifted by
  the chunk's start and handed to the cutter, so that the chunk's output has exactly
  those intervals removed. The code does not do this for a chunk that starts after 0:
  \<open>cut_silences\<close> first takes the sub-clip \<open>[start_time, end_time]\<close>, whose own time
  starts at 0, and then reads the shifted intervals in that time. For the chunk
  \<open>[300, 600]\<close> with speech at 0-2 s and 10-300 s of the chunk, the detector finds the
  silence \<open>(2.1, 9.9)\<close>; cutting it would keep \<open>(0, 2.1)\<close> and \<open>(9.9, 300)\<close>, but the
  shifted interval \<open>(302.1, 309.9)\<close> starts beyond the sub-clip's 300 s, the loop
  breaks, and the whole chunk is written.
\<close>

theorem chunk_silences_not_excised:
  "identify_silence_periods (transcript_of [seg 0 2, seg 10 300]) 300 (1/2) (1/10)
     = Inr [(21/10, 99/10)]
   \<and> keep_clips 300 [(21/10, 99/10)] = [(0, 21/10), (99/10, 300)]
   \<and> keep_clips 300 (adjust_silence_periods 300 [(21/10, 99/10)]) = [(0, 300)]
   \<and> process_video_chunk (good_chunk 600 [seg 0 2, seg 10 300]) empty_fs 300 600 (ChunkPath 1)
       = (write_file empty_fs (ChunkPath 1) (Video 300), Inr True)"
  by (simp add: detector_defs cutter_defs file_defs pipeline_defs)

text \<open>
  C2. Every exception raised in the processor's sequence is caught at its boundary, the
  temporary file is removed, and failure is returned for that chunk only. The code does
  not do this when the extraction of line 21 raises: the handler reads
  \<open>temp_chunk_path\<close> before line 25 has bound it, UnboundLocalError leaves
  \<open>process_video_chunk\<close> and ends the orchestrator's loop. With three chunks of 300 s
  and the extraction of chunk 1 failing, chunk 2 is never processed and no output is
  written. (Lemma \<open>process_video_chunk_contained\<close> shows that every failure after
  line 21 is contained as the claim says.)
\<close>

theorem extract_failure_not_contained:
  "process_video_chunk ((good_chunk 900 [seg 0 300])\<lparr>extract_fails := True\<rparr>) empty_fs 300 600
      (ChunkPath 1) = (empty_fs, Inl UnboundLocalError)
   \<and> process_long_video
       \<lparr>probe = Inr 900,
        chunk_scripts = (\<lambda>i. (good_chunk 900 [seg 0 300])\<lparr>extract_fails := (i = 1)\<rparr>),
        final_encode = Written\<rparr>
       empty_fs (Path ''output_video.mp4'') 300
     = (\<lparr>files = [(ChunkPath 0, Video 300)], dirs = {temp_dir}\<rparr>, Inl UnboundLocalError)"
  by (simp add: detector_defs cutter_defs file_defs pipeline_defs partition_defs upt_rec)

text \<open>
  C3. An error inside \<open>cut_silences\<close> does not leave it, and the processor reports the
  chunk as failed. The first half holds (lemma \<open>cut_silences_contained\<close>). The second
  does not: \<open>cut_silences\<close> returns nothing, \<open>process_video_chunk\<close> goes on to
  \<open>return True\<close>, and no output file exists (lemma
  \<open>process_video_chunk_ignores_cutter\<close> for any cutter outcome).
\<close>

theorem cutter_failure_reported_as_success:
  "cut_silences ((good_cutter 300)\<lparr>cut_load := Inl MediaError\<rparr>) empty_fs (ChunkPath 0) []
      (Some 0) (Some 300) = (empty_fs, Inr ())
   \<and> process_video_chunk
       ((good_chunk 300 [seg 0 300])\<lparr>cutter := (good_cutter 300)\<lparr>cut_load := Inl MediaError\<rparr>\<rparr>)
       empty_fs 0 300 (ChunkPath 0) = (empty_fs, Inr True)"
  by (simp add: detector_defs cutter_defs file_defs pipeline_defs)




text \<open>
  C5. For a transcript whose occupied intervals, the words, are \<open>[0,2]\<close>, \<open>[2,4]\<close> and
  \<open>[8,10]\<close> in a chunk of 10 s, with threshold 1.0 and buffer 0.1, the detector returns
  exactly the one interval \<open>(4.1, 7.9)\<close>. The code does so only when no segment spans
  the gap, as when every word is a segment of its own: it reads the segments, not the
  words (the defect of C6). When the three words lie in one segment \<open>[0, 10]\<close> it
  returns no interval, where the gaps between the words give \<open>(4.1, 7.9)\<close>.
\<close>

theorem detector_example_by_segment:
  "identify_silence_periods
      (transcript_of [\<lparr>seg_start = 0, seg_end = 10, seg_words =
         [\<lparr>word_start = 0, word_end = 2\<rparr>, \<lparr>word_start = 2, word_end = 4\<rparr>,
          \<lparr>word_start = 8, word_end = 10\<rparr>]\<rparr>]) 10 1 (1/10) = Inr []
   \<and> spec_word_silence_periods
      (transcript_of [\<lparr>seg_start = 0, seg_end = 10, seg_words =
         [\<lparr>word_start = 0, word_end = 2\<rparr>, \<lparr>word_start = 2, word_end = 4\<rparr>,
          \<lparr>word_start = 8, word_end = 10\<rparr>]\<rparr>]) 10 1 (1/10) = Inr [(41/10, 79/10)]
   \<and> identify_silence_periods
      (transcript_of
        [\<lparr>seg_start = 0, seg_end = 2, seg_words = [\<lparr>word_start = 0, word_end = 2\<rparr>]\<rparr>,
         \<lparr>seg_start = 2, seg_end = 4, seg_words = [\<lparr>word_start = 2, word_end = 4\<rparr>]\<rparr>,
         \<lparr>seg_start = 8, seg_end = 10, seg_words = [\<lparr>word_start = 8, word_end = 10\<rparr>]\<rparr>])
      10 1 (1/10) = Inr [(41/10, 79/10)]"
  by (simp add: detector_defs)

text \<open>
  C6. The silence candidates are the gaps between consecutive words of the flattened
  word-level list. The code does not do this: it names the list \<open>words\<close> but iterates
  over \<open>transcription['segments']\<close> and reads each segment's own start and end. For
  one segment \<open>[0, 10]\<close> holding the words \<open>[0,1]\<close>, \<open>[5,6]\<close>, \<open>[9,10]\<close> it finds no
  silence, where the gaps between the words give \<open>(1.1, 4.9)\<close> and \<open>(6.1, 8.9)\<close>.
\<close>

theorem segments_not_words:
  "identify_silence_periods
      (transcript_of [\<lparr>seg_start = 0, seg_end = 10, seg_words =
         [\<lparr>word_start = 0, word_end = 1\<rparr>, \<lparr>word_start = 5, word_end = 6\<rparr>,
          \<lparr>word_start = 9, word_end = 10\<rparr>]\<rparr>]) 10 1 (1/10) = Inr []
   \<and> spec_word_silence_periods
      (transcript_of [\<lparr>seg_start = 0, seg_end = 10, seg_words =
         [\<lparr>word_start = 0, word_end = 1\<rparr>, \<lparr>word_start = 5, word_end = 6\<rparr>,
          \<lparr>word_start = 9, word_end = 10\<rparr>]\<rparr>]) 10 1 (1/10)
       = Inr [(11/10, 49/10), (61/10, 89/10)]"
  by (simp add: detector_defs)

text \<open>
  C7. For a non-empty source range and silence intervals of the data model (their times
  are not negative), \<open>cut_silences\<close> never writes a video of zero duration: when the
  load, the cuts and the encoding succeed, and the library gives a sub-clip \<open>(a, b)\<close>
  within the video the duration \<open>b - a\<close>, the file written has a positive duration.
  When no clip is kept (as when the silences cover the whole range), and when no
  silence is usable (the list is empty, or every silence starts beyond the clip), it
  is the full range.
\<close>

theorem cut_silences_never_empty:
  assumes "cut_load sc = Inr source_duration" and "\<not> cut_clips_fail sc"
    and "cut_encode sc = Written"
    and "0 < clip_duration source_duration start_time end_time"
    and "\<forall>p\<in>set silence_periods. 0 \<le> snd p"
    and "\<forall>c. 0 \<le> fst c \<and> fst c < snd c
              \<and> snd c \<le> clip_duration source_duration start_time end_time
           \<longrightarrow> subclip_length sc (clip_duration source_duration start_time end_time) c
                 = clip_length c"
  shows "\<exists>d. cut_silences sc fs output_video silence_periods start_time end_time
             = (write_file fs output_video (Video d), Inr ())
           \<and> 0 < d
           \<and> (keep_clips (clip_duration source_duration start_time end_time) silence_periods = []
                \<longrightarrow> d = clip_duration source_duration start_time end_time)
           \<and> ((\<forall>p\<in>set silence_periods.
                  clip_duration source_duration start_time end_time < fst p)
                \<longrightarrow> d = clip_duration source_duration start_time end_time)"
proof -
  let ?dur = "clip_duration source_duration start_time end_time"
  let ?d = "cut_result_duration (subclip_length sc ?dur) ?dur silence_periods"
  have "cut_silences sc fs output_video silence_periods start_time end_time
      = (write_file fs output_video (Video ?d), Inr ())"
    using assms(1-3) by (simp add: cut_silences_def cut_silences_try_def Let_def)
  moreover have "0 < ?d"
    using assms(4-6) by (rule cut_result_duration_pos)
  moreover have "keep_clips ?dur silence_periods = [] \<longrightarrow> ?d = ?dur"
    by (simp add: cut_result_duration_def)
  moreover have "(\<forall>p\<in>set silence_periods. ?dur < fst p) \<longrightarrow> ?d = ?dur"
    using cut_result_unusable[OF assms(4) _ assms(6)] by blast
  ultimately show ?thesis by blast
qed

theorem cut_silences_never_empty_witness:
  "cut_load (good_cutter 10) = Inr 10 \<and> \<not> cut_clips_fail (good_cutter 10)
   \<and> cut_encode (good_cutter 10) = Written \<and> 0 < clip_duration 10 (Some 0) (Some 10)
   \<and> list_all (\<lambda>p. 0 \<le> snd p) [(0, 10::real)]
   \<and> subclip_length (good_cutter 10) (clip_duration 10 (Some 0) (Some 10)) = clip_length
   \<and> keep_clips (clip_duration 10 (Some 0) (Some 10)) [(0, 10)] = []
   \<and> cut_silences (good_cutter 10) empty_fs (Path ''out.mp4'') [(0, 10)] (Some 0) (Some 10)
        = (write_file empty_fs (Path ''out.mp4'') (Video 10), Inr ())"
  using cut_silences_never_empty[of "good_cutter 10" 10 "Some 0" "Some 10" "[(0, 10)]"
      empty_fs "Path ''out.mp4''"]
  by (simp add: good_cutter_def clip_duration_def keep_clips_def)

text \<open>
  C8, as stated: for an empty segment list and a chunk longer than the threshold, the
  whole chunk is returned as one silence interval. This fails with the default buffer:
  for a chunk of 10 s, threshold 1.0 and buffer 0.1 the result is \<open>(0.1, 9.9)\<close>, not
  \<open>(0, 10)\<close>.
\<close>

theorem empty_transcript_counterexample:
  "identify_silence_periods (transcript_of []) 10 1 (1/10) = Inr [(1/10, 99/10)]
   \<and> identify_silence_periods (transcript_of []) 10 1 (1/10) \<noteq> Inr [(0, 10)]"
  by (simp add: detector_defs)

text \<open>
  C8, amended: for an empty segment list, when the chunk duration exceeds the threshold
  and \<open>min (duration - buffer) duration\<close> exceeds the buffer, the result is the one
  interval from \<open>buffer\<close> to \<open>min (duration - buffer) duration\<close>, the chunk shrunk by
  the buffer at both ends (the whole chunk when the buffer is 0); otherwise, and so for
  every chunk not longer than the threshold, the result is empty.
\<close>

theorem empty_transcript_silence:
  "identify_silence_periods (transcript_of []) video_duration threshold buffer =
     Inr (if video_duration > threshold \<and> min (video_duration - buffer) video_duration > buffer
          then [(buffer, min (video_duration - buffer) video_duration)] else [])"
  by (simp add: detector_defs)

text \<open>
  C9. Temporary artifacts are removed on every exit path of the orchestrator, also where
  no chunk succeeds or no clip is usable. The code does not do this: \<open>os.rmdir\<close> and
  the removal of the chunk files are inside the branch \<open>if final_clips\<close> only. A
  source of 0.5 s (its only chunk is skipped), a source whose transcription fails, and
  a source whose cutter fails all end with the directory \<open>temp_chunks\<close> still there;
  the run in which everything succeeds removes it.
\<close>

theorem temp_dir_left_behind:
  "process_long_video
      \<lparr>probe = Inr (1/2), chunk_scripts = (\<lambda>i. good_chunk (1/2) []), final_encode = Written\<rparr>
      empty_fs (Path ''output_video.mp4'') 300
     = (\<lparr>files = [], dirs = {temp_dir}\<rparr>, Inr NoChunksProcessed)
   \<and> process_long_video
      \<lparr>probe = Inr 300,
       chunk_scripts = (\<lambda>i. (good_chunk 300 [seg 0 300])\<lparr>transcribe := Inl TranscriptionError\<rparr>),
       final_encode = Written\<rparr>
      empty_fs (Path ''output_video.mp4'') 300
     = (\<lparr>files = [], dirs = {temp_dir}\<rparr>, Inr NoChunksProcessed)
   \<and> process_long_video
      \<lparr>probe = Inr 300,
       chunk_scripts = (\<lambda>i. (good_chunk 300 [seg 0 300])
          \<lparr>cutter := (good_cutter 300)\<lparr>cut_load := Inl MediaError\<rparr>\<rparr>),
       final_encode = Written\<rparr>
      empty_fs (Path ''output_video.mp4'') 300
     = (\<lparr>files = [], dirs = {temp_dir}\<rparr>, Inr NoValidClips)
   \<and> process_long_video
      \<lparr>probe = Inr 300, chunk_scripts = (\<lambda>i. good_chunk 300 [seg 0 300]),
       final_encode = Written\<rparr>
      empty_fs (Path ''output_video.mp4'') 300
     = (\<lparr>files = [(Path ''output_video.mp4'', Video 300)], dirs = {}\<rparr>, Inr Completed)"
  by (simp add: detector_defs cutter_defs file_defs pipeline_defs partition_defs upt_rec)

text \<open>
  C10, as stated: for a transcription whose segments have non-negative times,
  non-decreasing starts and start \<open>\<le>\<close> end, the returned intervals are strictly
  increasing by start and no two overlap. The claim puts no condition on the buffer,
  and with a negative one this fails: for the segments \<open>[0,0]\<close>, \<open>[2,2]\<close>, \<open>[4,4]\<close> in
  a chunk of 4 s, with threshold 1 and buffer -1, the result is \<open>(-1, 3)\<close> followed by
  \<open>(1, 4)\<close>, which overlap.
\<close>

theorem negative_buffer_counterexample:
  "identify_silence_periods (transcript_of [seg 0 0, seg 2 2, seg 4 4]) 4 1 (-1)
     = Inr [(-1, 3), (1, 4)]
   \<and> sorted (map seg_start [seg 0 0, seg 2 2, seg 4 4])
   \<and> list_all (\<lambda>w. 0 \<le> seg_start w \<and> seg_start w \<le> seg_end w) [seg 0 0, seg 2 2, seg 4 4]
   \<and> \<not> sorted_wrt (\<lambda>a c. snd a \<le> fst c) ([(-1, 3), (1, 4)] :: interval list)"
  by (simp add: detector_defs)

text \<open>
  C10, amended: for a transcription whose segments have non-negative times,
  non-decreasing starts and start \<open>\<le>\<close> end, every interval \<open>(s, e)\<close> returned satisfies
  \<open>buffer \<le> s < e \<le> video_duration\<close>; and for a buffer that is not negative the list
  is strictly increasing by start and no two intervals overlap: each begins no earlier
  than the one before it ends. In particular the first \<open>buffer\<close> seconds of a chunk are
  never marked silent.
\<close>

theorem silence_periods_ordered:
  assumes "transcription ''segments'' = Some segs"
    and "sorted (map seg_start segs)"
    and "\<forall>w\<in>set segs. 0 \<le> seg_start w \<and> seg_start w \<le> seg_end w"
  shows "\<exists>ivs. identify_silence_periods transcription video_duration threshold buffer = Inr ivs
     \<and> (\<forall>iv\<in>set ivs. buffer \<le> fst iv \<and> fst iv < snd iv \<and> snd iv \<le> video_duration)
     \<and> (0 \<le> buffer \<longrightarrow> sorted_wrt (\<lambda>a c. fst a < fst c) ivs
                        \<and> sorted_wrt (\<lambda>a c. snd a \<le> fst c) ivs)"
proof -
  obtain sp pe where lp: "silence_loop video_duration threshold buffer segs ([], 0) = (sp, pe)"
    by (cases "silence_loop video_duration threshold buffer segs ([], 0)")
  let ?ivs = "final_silence video_duration threshold buffer (sp, pe)"
  have res: "identify_silence_periods transcription video_duration threshold buffer = Inr ?ivs"
    using lp assms(1) by (simp add: identify_silence_periods_def)
  have ends: "\<forall>w\<in>set segs. 0 \<le> seg_end w" using assms(3) by fastforce
  have "silence_bounds video_duration buffer [] 0" by (simp add: silence_bounds_def)
  from silence_loop_bounds[OF ends this, of threshold]
  have "silence_bounds video_duration buffer sp pe" by (simp add: lp)
  then have bounds:
    "\<forall>iv\<in>set ?ivs. buffer \<le> fst iv \<and> fst iv < snd iv \<and> snd iv \<le> video_duration"
    by (rule final_silence_bounds)
  have ordered: "sorted_wrt (\<lambda>a c. fst a < fst c) ?ivs \<and> sorted_wrt (\<lambda>a c. snd a \<le> fst c) ?ivs"
    if b: "0 \<le> buffer"
  proof -
    have "silence_inv video_duration buffer [] 0" by (simp add: silence_inv_def)
    from silence_loop_inv[OF b assms(2) assms(3) this _ lp]
    have "silence_inv video_duration buffer sp pe" by simp
    from final_silence_inv[OF this b]
    have chain: "sorted_wrt (\<lambda>a c. snd a \<le> fst c) ?ivs"
      by (simp add: silence_inv_def)
    have "sorted_wrt (\<lambda>a c. fst a < fst c) ?ivs"
    proof (rule sorted_wrt_mono_rel[OF _ chain])
      fix a c assume "a \<in> set ?ivs" "c \<in> set ?ivs" "snd a \<le> fst c"
      then show "fst a < fst c" using bounds by fastforce
    qed
    then show ?thesis using chain by simp
  qed
  show ?thesis using res bounds ordered by blast
qed

theorem silence_periods_ordered_witness:
  "transcript_of [seg 0 2, seg 4 6, seg 9 10] ''segments'' = Some [seg 0 2, seg 4 6, seg 9 10]
   \<and> sorted (map seg_start [seg 0 2, seg 4 6, seg 9 10])
   \<and> list_all (\<lambda>w. 0 \<le> seg_start w \<and> seg_start w \<le> seg_end w) [seg 0 2, seg 4 6, seg 9 10]
   \<and> (0::real) \<le> 1/10
   \<and> identify_silence_periods (transcript_of [seg 0 2, seg 4 6, seg 9 10]) 10 1 (1/10)
       = Inr [(21/10, 39/10), (61/10, 89/10)]
   \<and> sorted_wrt (\<lambda>a c. fst a < fst c) ([(21/10, 39/10), (61/10, 89/10)] :: interval list)
   \<and> sorted_wrt (\<lambda>a c. snd a \<le> fst c) ([(21/10, 39/10), (61/10, 89/10)] :: interval list)"
  using silence_periods_ordered[of "transcript_of [seg 0 2, seg 4 6, seg 9 10]"
      "[seg 0 2, seg 4 6, seg 9 10]" 10 1 "1/10"]
  by (simp add: detector_defs)

end
